theory Spec2Isabelle
  imports Main "HOL-Library.Char_ord" "HOL-Library.Sublist"
begin

section \<open>Regular expressions as used by \<open>validation.net\<close>\<close>

text \<open>
  The patterns of \<open>validation.net\<close> use literals, character classes, the dot, grouping,
  alternation, the quantifiers \<open>*\<close>, \<open>+\<close>, \<open>?\<close>, \<open>{m}\<close>, \<open>{m,n}\<close> and the anchors \<open>^\<close> and
  \<open>$\<close> (no flags, no back references, no look-around). Strings are lists of 8-bit
  characters, read as the code units of the JavaScript string.
\<close>

datatype regex =
    REps
  | RBol
  | REol
  | RChr char
  | RCls "(char \<times> char) list"
  | RDot
  | RSeq regex regex
  | RAlt regex regex
  | RStar regex

text \<open>A character class is a list of inclusive ranges; \<open>[-,]\<close> is two one-character ranges.\<close>

definition in_class :: "(char \<times> char) list \<Rightarrow> char \<Rightarrow> bool" where
  "in_class rs c = list_ex (\<lambda>(lo, hi). lo \<le> c \<and> c \<le> hi) rs"

text \<open>
  \<open>rmatch r n s\<close> lists the rests of \<open>s\<close> left after each way \<open>r\<close> can match a prefix of
  \<open>s\<close>, where \<open>s\<close> is a suffix of an input of length \<open>n\<close>: \<open>^\<close> matches only where nothing
  has been consumed, \<open>$\<close> only where nothing is left. An iteration of \<open>*\<close> that consumes
  nothing is not repeated, as in the backtracking matcher of the language.
\<close>

function rmatch :: "regex \<Rightarrow> nat \<Rightarrow> string \<Rightarrow> string list" where
  "rmatch REps n s = [s]"
| "rmatch RBol n s = (if length s = n then [s] else [])"
| "rmatch REol n s = (if s = [] then [s] else [])"
| "rmatch (RChr c) n s = (case s of [] \<Rightarrow> [] | x # xs \<Rightarrow> if x = c then [xs] else [])"
| "rmatch (RCls rs) n s =
     (case s of [] \<Rightarrow> [] | x # xs \<Rightarrow> if in_class rs x then [xs] else [])"
| "rmatch RDot n s =
     (case s of [] \<Rightarrow> [] | x # xs \<Rightarrow> if x = CHR 0x0A \<or> x = CHR 0x0D then [] else [xs])"
| "rmatch (RSeq a b) n s = concat (map (rmatch b n) (rmatch a n s))"
| "rmatch (RAlt a b) n s = rmatch a n s @ rmatch b n s"
| "rmatch (RStar a) n s =
     s # concat (map (\<lambda>t. if length t < length s then rmatch (RStar a) n t else [])
                     (rmatch a n s))"
  by pat_completeness auto
termination
  by (relation "measures [\<lambda>(r, n, s). size r, \<lambda>(r, n, s). length s]") auto

text \<open>\<open>regex.test(str)\<close>: a match may start at any index of the string.\<close>

definition regex_test :: "regex \<Rightarrow> string \<Rightarrow> bool" where
  "regex_test r s = list_ex (\<lambda>t. rmatch r (length s) t \<noteq> []) (suffixes s)"

fun rseqs :: "regex list \<Rightarrow> regex" where
  "rseqs [] = REps"
| "rseqs [r] = r"
| "rseqs (r # rs) = RSeq r (rseqs rs)"

fun ralts :: "regex list \<Rightarrow> regex" where
  "ralts [] = REps"
| "ralts [r] = r"
| "ralts (r # rs) = RAlt r (ralts rs)"

fun rstr :: "string \<Rightarrow> regex" where
  "rstr [] = REps"
| "rstr [c] = RChr c"
| "rstr (c # cs) = RSeq (RChr c) (rstr cs)"

definition ropt :: "regex \<Rightarrow> regex" where
  "ropt r = RAlt r REps"

definition rplus :: "regex \<Rightarrow> regex" where
  "rplus r = RSeq r (RStar r)"

fun rtimes :: "nat \<Rightarrow> regex \<Rightarrow> regex" where
  "rtimes 0 r = REps"
| "rtimes (Suc k) r = RSeq r (rtimes k r)"

fun rupto :: "nat \<Rightarrow> regex \<Rightarrow> regex" where
  "rupto 0 r = REps"
| "rupto (Suc k) r = ropt (RSeq r (rupto k r))"

text \<open>\<open>r{lo,hi}\<close>\<close>

definition rrep :: "nat \<Rightarrow> nat \<Rightarrow> regex \<Rightarrow> regex" where
  "rrep lo hi r = RSeq (rtimes lo r) (rupto (hi - lo) r)"

text \<open>\<open>\d\<close> and \<open>\s\<close> (the white space of the first 256 code units).\<close>

definition rdigit :: regex where
  "rdigit = RCls [(CHR ''0'', CHR ''9'')]"

definition rspace :: regex where
  "rspace = RCls [(CHR 0x09, CHR 0x0D), (CHR 0x20, CHR 0x20), (CHR 0xA0, CHR 0xA0)]"

definition rrange :: "char \<Rightarrow> char \<Rightarrow> regex" where
  "rrange lo hi = RCls [(lo, hi)]"

subsection \<open>The patterns\<close>

text \<open>\<open>[1-9][0-9]{0,3}|[1-5][0-9]{4}|6(?:[0-4][0-9]{3}|5(?:[0-4][0-9]{2}|5(?:[0-2][0-9]|3[0-5])))\<close>\<close>

definition port_number :: regex where
  "port_number = ralts
     [RSeq (rrange CHR ''1'' CHR ''9'') (rrep 0 3 (rrange CHR ''0'' CHR ''9'')),
      RSeq (rrange CHR ''1'' CHR ''5'') (rrep 4 4 (rrange CHR ''0'' CHR ''9'')),
      RSeq (RChr CHR ''6'') (ralts
        [RSeq (rrange CHR ''0'' CHR ''4'') (rrep 3 3 (rrange CHR ''0'' CHR ''9'')),
         RSeq (RChr CHR ''5'') (ralts
           [RSeq (rrange CHR ''0'' CHR ''4'') (rrep 2 2 (rrange CHR ''0'' CHR ''9'')),
            RSeq (RChr CHR ''5'') (ralts
              [RSeq (rrange CHR ''0'' CHR ''2'') (rrange CHR ''0'' CHR ''9''),
               RSeq (RChr CHR ''3'') (rrange CHR ''0'' CHR ''5'')])])])]"

text \<open>\<open>ports: /^(?:(?:^|[-,])(?:port_number))+$/\<close>\<close>

definition net_ports :: regex where
  "net_ports = rseqs
     [RBol,
      rplus (RSeq (RAlt RBol (RCls [(CHR ''-'', CHR ''-''), (CHR '','', CHR '','')])) port_number),
      REol]"

text \<open>
  \<open>([a-zA-Z]|[a-zA-Z][a-zA-Z0-9\-]*[a-zA-Z0-9])\<close>; the second copy in the pattern lists
  the ranges as \<open>A-Za-z\<close>.
\<close>

definition host_label :: regex where
  "host_label = RAlt
     (RCls [(CHR ''a'', CHR ''z''), (CHR ''A'', CHR ''Z'')])
     (rseqs
       [RCls [(CHR ''a'', CHR ''z''), (CHR ''A'', CHR ''Z'')],
        RStar (RCls [(CHR ''a'', CHR ''z''), (CHR ''A'', CHR ''Z''), (CHR ''0'', CHR ''9''),
                     (CHR ''-'', CHR ''-'')]),
        RCls [(CHR ''a'', CHR ''z''), (CHR ''A'', CHR ''Z''), (CHR ''0'', CHR ''9'')]])"

definition host_label_last :: regex where
  "host_label_last = RAlt
     (RCls [(CHR ''A'', CHR ''Z''), (CHR ''a'', CHR ''z'')])
     (rseqs
       [RCls [(CHR ''A'', CHR ''Z''), (CHR ''a'', CHR ''z'')],
        RStar (RCls [(CHR ''A'', CHR ''Z''), (CHR ''a'', CHR ''z''), (CHR ''0'', CHR ''9''),
                     (CHR ''-'', CHR ''-'')]),
        RCls [(CHR ''A'', CHR ''Z''), (CHR ''a'', CHR ''z''), (CHR ''0'', CHR ''9'')]])"

text \<open>
  \<open>hostname: /^((label)\.)*(label)|localhost$/\<close>. The alternation is the outermost
  operator: the first branch is anchored at the start only, the second at the end only.
\<close>

definition net_hostname :: regex where
  "net_hostname = RAlt
     (rseqs [RBol, RStar (RSeq host_label (RChr CHR ''.'')), host_label_last])
     (rseqs (map RChr ''localhost'' @ [REol]))"

text \<open>\<open>([0-9]|[1-9][0-9]|1[0-9]{2}|2[0-4][0-9]|25[0-5])\<close>\<close>

definition octet :: regex where
  "octet = ralts
     [rrange CHR ''0'' CHR ''9'',
      RSeq (rrange CHR ''1'' CHR ''9'') (rrange CHR ''0'' CHR ''9''),
      RSeq (RChr CHR ''1'') (rrep 2 2 (rrange CHR ''0'' CHR ''9'')),
      rseqs [RChr CHR ''2'', rrange CHR ''0'' CHR ''4'', rrange CHR ''0'' CHR ''9''],
      rseqs [RChr CHR ''2'', RChr CHR ''5'', rrange CHR ''0'' CHR ''5'']]"

text \<open>\<open>IPv4: /^((octet)\.){3}(octet)$/\<close>\<close>

definition net_IPv4 :: regex where
  "net_IPv4 = rseqs [RBol, rrep 3 3 (RSeq octet (RChr CHR ''.'')), octet, REol]"

text \<open>\<open>IPv4CIDR: /((octet)\.){3}(octet)(\/([1-2]\d|3[0-2]|\d))/\<close>, with no anchor.\<close>

definition net_IPv4CIDR :: regex where
  "net_IPv4CIDR = rseqs
     [rrep 3 3 (RSeq octet (RChr CHR ''.'')),
      octet,
      RSeq (RChr CHR ''/'') (ralts
        [RSeq (rrange CHR ''1'' CHR ''2'') rdigit,
         RSeq (RChr CHR ''3'') (rrange CHR ''0'' CHR ''2''),
         rdigit])]"

text \<open>\<open>IPv4Range: /^((octet)\.){3}(octet)\-(octet)$/\<close>\<close>

definition net_IPv4Range :: regex where
  "net_IPv4Range = rseqs
     [RBol, rrep 3 3 (RSeq octet (RChr CHR ''.'')), octet, RChr CHR ''-'', octet, REol]"

text \<open>\<open>[0-9A-Fa-f]{1,4}\<close>\<close>

definition h16 :: regex where
  "h16 = rrep 1 4 (RCls [(CHR ''0'', CHR ''9''), (CHR ''A'', CHR ''F''), (CHR ''a'', CHR ''f'')])"

text \<open>\<open>(25[0-5]|2[0-4]\d|1\d\d|[1-9]?\d)\<close>\<close>

definition dec_octet :: regex where
  "dec_octet = ralts
     [rseqs [RChr CHR ''2'', RChr CHR ''5'', rrange CHR ''0'' CHR ''5''],
      rseqs [RChr CHR ''2'', rrange CHR ''0'' CHR ''4'', rdigit],
      rseqs [RChr CHR ''1'', rdigit, rdigit],
      RSeq (ropt (rrange CHR ''1'' CHR ''9'')) rdigit]"

text \<open>\<open>((dec_octet)(\.(dec_octet)){3})\<close>\<close>

definition dotted_quad :: regex where
  "dotted_quad = RSeq dec_octet (rrep 3 3 (RSeq (RChr CHR ''.'') dec_octet))"

text \<open>\<open>([0-9A-Fa-f]{1,4}:)\<close> and \<open>(:[0-9A-Fa-f]{1,4})\<close>\<close>

definition h16_colon :: regex where
  "h16_colon = RSeq h16 (RChr CHR '':'')"

definition colon_h16 :: regex where
  "colon_h16 = RSeq (RChr CHR '':'') h16"

text \<open>
  The eight branches of the address, by the number of leading \<open>h16:\<close> groups (7 down to
  0). The branches for 4 to 0 leading groups have the same shape
  \<open>((:h16){1,k})|((:h16){0,j}:dotted_quad)|:\<close>; the branch for 4 writes \<open>{0,1}\<close> as \<open>?\<close>.
\<close>

definition ipv6_tail :: "nat \<Rightarrow> nat \<Rightarrow> regex" where
  "ipv6_tail k j = ralts
     [rrep 1 k colon_h16,
      rseqs [rrep 0 j colon_h16, RChr CHR '':'', dotted_quad],
      RChr CHR '':'']"

definition ipv6_address :: regex where
  "ipv6_address = ralts
     [RSeq (rrep 7 7 h16_colon) (RAlt h16 (RChr CHR '':'')),
      RSeq (rrep 6 6 h16_colon) (ralts [colon_h16, dotted_quad, RChr CHR '':'']),
      RSeq (rrep 5 5 h16_colon)
        (ralts [rrep 1 2 colon_h16, RSeq (RChr CHR '':'') dotted_quad, RChr CHR '':'']),
      RSeq (rrep 4 4 h16_colon)
        (ralts [rrep 1 3 colon_h16,
                rseqs [ropt colon_h16, RChr CHR '':'', dotted_quad],
                RChr CHR '':'']),
      RSeq (rrep 3 3 h16_colon) (ipv6_tail 4 2),
      RSeq (rrep 2 2 h16_colon) (ipv6_tail 5 3),
      RSeq (rrep 1 1 h16_colon) (ipv6_tail 6 4),
      RSeq (RChr CHR '':'') (ipv6_tail 7 5)]"

text \<open>\<open>IPv6: /^\s*(ipv6_address)(%.+)?\s*/\<close>, with no anchor at the end.\<close>

definition net_IPv6 :: regex where
  "net_IPv6 = rseqs
     [RBol, RStar rspace, ipv6_address, ropt (RSeq (RChr CHR ''%'') (rplus RDot)), RStar rspace]"

text \<open>\<open>IPv6CIDR: /^\s*(ipv6_address)(%.+)?\s*(\/(\d|\d\d|1[0-1]\d|12[0-8]))$/\<close>\<close>

definition net_IPv6CIDR :: regex where
  "net_IPv6CIDR = rseqs
     [RBol, RStar rspace, ipv6_address, ropt (RSeq (RChr CHR ''%'') (rplus RDot)), RStar rspace,
      RSeq (RChr CHR ''/'') (ralts
        [rdigit,
         RSeq rdigit rdigit,
         rseqs [RChr CHR ''1'', rrange CHR ''0'' CHR ''1'', rdigit],
         rseqs [RChr CHR ''1'', RChr CHR ''2'', rrange CHR ''0'' CHR ''8'']]),
      REol]"

text \<open>\<open>validation.test(regex, str)\<close>\<close>

definition validation_test :: "regex \<Rightarrow> string \<Rightarrow> bool" where
  "validation_test regex str = regex_test regex str"

section \<open>Options, errors and the collaborators\<close>

text \<open>
  The option object after \<open>tools.merge(defaults, opts)\<close>. \<open>range\<close> is the list of raw range
  entries (named \<open>range_list\<close> here); \<open>called\<close> is the name of the calling entry point.
  The numbers are integers.
\<close>

record opts =
  nmap :: string
  verbose :: bool
  ports :: string
  range_list :: "string list"
  timeout :: int
  blocksize :: int
  threshold :: int
  flags :: "string list"
  udp :: bool
  json :: bool
  called :: string

text \<open>
  The messages of \<open>validation\<close> (\<open>pathErr\<close>, \<open>blockErr\<close>, \<open>rangeErr\<close>, \<open>portErr\<close>, the
  per-host message of \<open>verify\<close>) and the errors that \<open>reporting.reports\<close> wraps.
\<close>

datatype error =
    PathErr
  | BlockErr
  | RangeErr
  | PortErr
  | HostErr string
  | ExecErr string
  | ParseErr string

typedecl nmaprun

text \<open>
  What the code asks of other modules: \<open>hasbin.sync\<close>, \<open>fs.access\<close> with
  \<open>F_OK|X_OK\<close> (true when it reports no error), \<open>cidr.list\<close> (the enumeration of a
  CIDR block) and the parser of \<open>xml2js\<close> (an error, or the \<open>nmaprun\<close> node).
  The model covers the calls of \<open>cidr.list\<close> that return a list. For a string that the
  IPv4 CIDR pattern accepts but that is no CIDR block (a prefix length above 32, as in
  \<open>1.2.3.4/33\<close>) the library returns \<open>null\<close>, and \<open>network.range\<close> throws when it reads
  \<open>blocks.length\<close>: what is proved of \<open>network_range\<close> and \<open>network_calculate\<close> says
  nothing of such entries.
\<close>

record env =
  hasbin_sync :: "string \<Rightarrow> bool"
  fs_access :: "string \<Rightarrow> bool"
  cidr_list :: "string \<Rightarrow> string list"
  xml_parse :: "string \<Rightarrow> string + nmaprun"

section \<open>\<open>validation\<close>\<close>

text \<open>\<open>validation.verify(host, cb)\<close>: the callback's arguments as a value.\<close>

definition validation_verify :: "string \<Rightarrow> error + bool" where
  "validation_verify host =
     (if validation_test net_hostname host \<or>
         validation_test net_IPv4 host \<or>
         validation_test net_IPv6 host \<or>
         validation_test net_IPv4CIDR host \<or>
         validation_test net_IPv6CIDR host \<or>
         validation_test net_IPv4Range host
      then Inr True
      else Inl (HostErr host))"

text \<open>\<open>validation.exists(path)\<close> has one parameter and returns \<open>hasbin.sync(path)\<close>.\<close>

definition validation_exists :: "env \<Rightarrow> string \<Rightarrow> bool" where
  "validation_exists env path = hasbin_sync env path"

text \<open>
  \<open>validation.init(opts, cb)\<close>. The first statement calls \<open>scope.exists(opts.nmap, f)\<close> with
  a function \<open>f\<close> that would look at \<open>fs.access\<close> and report \<open>pathErr\<close>; \<open>exists\<close> takes
  no second parameter, so \<open>f\<close> is never called and the value of the call is dropped.
  The result is the argument of the one call of \<open>cb\<close>: \<open>Inl errors\<close> for \<open>cb(errors)\<close>,
  \<open>Inr True\<close> for \<open>cb(null, true)\<close>. \<open>validation_init\<close> is the function on an option
  object whose \<open>range\<close> is an array of strings; \<open>validation_init_any\<close> below is the
  function on the other values of \<open>range\<close> as well.
\<close>

definition verify_entry :: "error list \<Rightarrow> string \<Rightarrow> error list" where
  "verify_entry errors v =
     (case validation_verify v of Inl err \<Rightarrow> errors @ [err] | Inr ok \<Rightarrow> errors)"

definition validation_init :: "env \<Rightarrow> opts \<Rightarrow> error list + bool" where
  "validation_init env opts =
     (let dropped = validation_exists env (nmap opts);
          errors0 = [];
          errors1 = (if 128 < blocksize opts then errors0 @ [BlockErr] else errors0);
          errors2 =
            (if validation_test (rstr ''discover'') (called opts) then errors1
             else
               let errors1a =
                     (if length (range_list opts) = 0 then errors1 @ [RangeErr] else errors1)
               in if 1 \<le> length (range_list opts)
                  then foldl verify_entry errors1a (range_list opts)
                  else errors1a);
          errors3 =
            (if ports opts = [] then errors2
             else if validation_test net_ports (ports opts) then errors2
             else errors2 @ [PortErr])
      in if 0 < length errors3 then Inl errors3 else Inr True)"

text \<open>
  The values that \<open>opts.range\<close> can have after the merge of the defaults with the caller's
  object: \<open>null\<close>, a string, or an array of strings. A statement that throws ends the
  function before \<open>cb\<close> is called.
\<close>

datatype range_value = RangeNull | RangeText string | RangeArray "string list"

datatype thrown = TypeError

datatype 'a outcome = Returned 'a | Threw thrown

text \<open>The end of \<open>validation.init\<close>: the test of \<open>opts.ports\<close> and the call of \<open>cb\<close>.\<close>

definition callback_result :: "opts \<Rightarrow> error list \<Rightarrow> error list + bool" where
  "callback_result opts errors2 =
     (let errors3 =
            (if ports opts = [] then errors2
             else if validation_test net_ports (ports opts) then errors2
             else errors2 @ [PortErr])
      in if 0 < length errors3 then Inl errors3 else Inr True)"

text \<open>
  \<open>validation.init(opts, cb)\<close> with \<open>opts.range\<close> given apart (the field \<open>range_list\<close> is
  not read). When the caller is not \<open>discover\<close>:
  \<^item> for \<open>null\<close>, \<open>!opts.range\<close> holds and \<open>rangeErr\<close> is pushed; then \<open>opts.range.length\<close>
    throws;
  \<^item> for a string, \<open>!opts.range\<close> (the empty string) or the \<open>typeof\<close> test holds and
    \<open>rangeErr\<close> is pushed; then, when the string is not empty, \<open>opts.range.forEach\<close> is
    not a function and the call throws;
  \<^item> for an array, \<open>rangeErr\<close> is pushed when it is empty, and every entry is verified.
\<close>

definition validation_init_any ::
  "env \<Rightarrow> opts \<Rightarrow> range_value \<Rightarrow> (error list + bool) outcome" where
  "validation_init_any env opts rng =
     (let dropped = validation_exists env (nmap opts);
          errors0 = [];
          errors1 = (if 128 < blocksize opts then errors0 @ [BlockErr] else errors0)
      in if validation_test (rstr ''discover'') (called opts)
         then Returned (callback_result opts errors1)
         else
           (case rng of
              RangeNull \<Rightarrow> Threw TypeError
            | RangeText s \<Rightarrow>
                (let errors1a = errors1 @ [RangeErr]
                 in if 1 \<le> length s then Threw TypeError
                    else Returned (callback_result opts errors1a))
            | RangeArray hosts \<Rightarrow>
                (let errors1a = (if length hosts = 0 then errors1 @ [RangeErr] else errors1)
                 in Returned (callback_result opts
                      (if 1 \<le> length hosts then foldl verify_entry errors1a hosts
                       else errors1a)))))"

section \<open>\<open>tools\<close>\<close>

text \<open>\<open>Array.prototype.join\<close> and \<open>Array.prototype.slice\<close> (both indices in range order).\<close>

fun array_join :: "string \<Rightarrow> string list \<Rightarrow> string" where
  "array_join sep [] = []"
| "array_join sep [x] = x"
| "array_join sep (x # xs) = x @ sep @ array_join sep xs"

definition array_slice :: "nat \<Rightarrow> nat \<Rightarrow> 'a list \<Rightarrow> 'a list" where
  "array_slice a b xs = take (b - a) (drop a xs)"

text \<open>
  \<open>tools.chunk(obj, offset)\<close>: the \<open>for\<close> loop, with \<open>idx\<close> and \<open>tarray\<close> as its state.
  With \<open>offset = 0\<close> and a non-empty array the loop does not end: the value is \<open>None\<close>.
\<close>

partial_function (option) chunk_loop ::
  "string list \<Rightarrow> nat \<Rightarrow> nat \<Rightarrow> string list \<Rightarrow> string list option" where
  "chunk_loop obj offset idx tarray =
     (if idx < length obj
      then chunk_loop obj offset (idx + offset)
             (tarray @ [array_join '' '' (array_slice idx (idx + offset) obj)])
      else Some tarray)"

declare chunk_loop.simps [code]

definition tools_chunk :: "string list \<Rightarrow> nat \<Rightarrow> string list option" where
  "tools_chunk obj offset = chunk_loop obj offset 0 []"

text \<open>
  \<open>tools.merge\<close> is \<open>deepmerge\<close>; on two arrays of strings its default is the
  concatenation \<open>target.concat(source)\<close>.
\<close>

definition tools_merge :: "string list \<Rightarrow> string list \<Rightarrow> string list" where
  "tools_merge target source = target @ source"

text \<open>
  The decimal text of an integer, as a template literal renders a number (of a magnitude
  that a double holds exactly and prints without an exponent).
\<close>

fun show_nat :: "nat \<Rightarrow> string" where
  "show_nat n =
     (if n < 10 then [''0123456789'' ! n]
      else show_nat (n div 10) @ [''0123456789'' ! (n mod 10)])"

definition show_int :: "int \<Rightarrow> string" where
  "show_int i = (if i < 0 then CHR ''-'' # show_nat (nat (- i)) else show_nat (nat i))"

text \<open>\<open>tools.command(opts, block)\<close>\<close>

definition tools_command :: "opts \<Rightarrow> string \<Rightarrow> string" where
  "tools_command opts block =
     (let flagstr = array_join '' '' (flags opts);
          ipv6 = (if validation_test net_IPv6 block then '' -6 '' else '' '');
          proto = (if udp opts then '' -sU'' else '' '');
          tmo = ''--host-timeout='' @ show_int (timeout opts) @ ''s ''
      in if ports opts \<noteq> []
         then (nmap opts @ proto) @ '' '' @ tmo @ flagstr @ ipv6 @ ''-p'' @ ports opts @ '' '' @ block
         else (nmap opts @ proto) @ '' '' @ tmo @ flagstr @ ipv6 @ block)"

section \<open>\<open>network\<close>\<close>

text \<open>
  \<open>Math.round(a / b)\<close> for integers \<open>a\<close> and \<open>b \<noteq> 0\<close>: the nearest integer, a tie going
  up (the quotient of the sizes that occur here is exact enough in a double for the
  rounding to be the one of the rational quotient).
\<close>

definition math_round_div :: "int \<Rightarrow> int \<Rightarrow> int" where
  "math_round_div a b = (2 * a + b) div (2 * b)"

text \<open>
  \<open>network.range(opts, host)\<close>. \<open>splitat\<close> is passed to \<open>tools.chunk\<close> as its \<open>offset\<close>,
  the length of each slice. With \<open>opts.blocksize = 0\<close> the quotient is \<open>Infinity\<close> (one
  slice holding every address) or, for an empty enumeration, \<open>NaN\<close> (the \<open>else\<close> branch):
  either way the result is the one joined block.
\<close>

definition network_range :: "env \<Rightarrow> opts \<Rightarrow> string \<Rightarrow> string list option" where
  "network_range env opts host =
     (let blocks = cidr_list env host in
      if blocksize opts = 0 then Some [array_join '' '' blocks]
      else
        let splitat0 = math_round_div (int (length blocks)) (blocksize opts);
            splitat = (if 256 < splitat0 then math_round_div splitat0 255 else splitat0)
        in if 1 < splitat then tools_chunk blocks (nat splitat)
           else Some [array_join '' '' blocks])"

text \<open>
  \<open>network.calculate(opts)\<close>: the \<open>forEach\<close> over \<open>opts.range\<close> with the arrays \<open>results\<close>
  and \<open>tresults\<close> as its state, the \<open>switch (true)\<close> as a chain of tests in the order of
  its cases, then the merge of \<open>tresults[0]\<close>.
\<close>

fun calculate_loop ::
  "env \<Rightarrow> opts \<Rightarrow> string list \<Rightarrow> string list \<times> string list list \<Rightarrow>
   (string list \<times> string list list) option" where
  "calculate_loop env opts [] (results, tresults) = Some (results, tresults)"
| "calculate_loop env opts (host # hosts) (results, tresults) =
     (if validation_test net_hostname host \<or>
         validation_test net_IPv4 host \<or>
         validation_test net_IPv6 host
      then calculate_loop env opts hosts (results @ [host], tresults)
      else if validation_test net_IPv4CIDR host
      then (case network_range env opts host of
              None \<Rightarrow> None
            | Some r \<Rightarrow> calculate_loop env opts hosts (results, tresults @ [r]))
      else if validation_test net_IPv4Range host
      then calculate_loop env opts hosts (results @ [host], tresults)
      else if validation_test net_IPv6CIDR host
      then calculate_loop env opts hosts (results @ [host], tresults)
      else calculate_loop env opts hosts (results, tresults))"

definition network_calculate :: "env \<Rightarrow> opts \<Rightarrow> string list option" where
  "network_calculate env opts =
     (case calculate_loop env opts (range_list opts) ([], []) of
        None \<Rightarrow> None
      | Some (results, tresults) \<Rightarrow>
          (case tresults of
             [] \<Rightarrow> Some results
           | first # others \<Rightarrow> Some (tools_merge results first)))"

section \<open>\<open>reporting\<close> and the scan unit of \<open>tools.funcs\<close>\<close>

text \<open>
  The \<open>report\<close> argument of \<open>reporting.reports\<close> is the error object of \<open>exec\<close> (it has a
  \<open>code\<close> property) or the array of chunks. The result is the argument of the one call
  of \<open>cb\<close>.
\<close>

datatype report_arg = ErrorObject string | Chunks "string list"

datatype report = Xml string | NmapRun nmaprun

definition reporting_reports :: "env \<Rightarrow> opts \<Rightarrow> report_arg \<Rightarrow> error + report" where
  "reporting_reports env opts rep =
     (case rep of
        ErrorObject e \<Rightarrow> Inl (ExecErr e)
      | Chunks chunks \<Rightarrow>
          let xml = concat chunks in
          if \<not> json opts then Inr (Xml xml)
          else (case xml_parse env xml of
                  Inl err \<Rightarrow> Inl (ParseErr err)
                | Inr run \<Rightarrow> Inr (NmapRun run)))"

text \<open>
  One scan unit \<open>funcs[range]\<close>: after \<open>proc(cmd, exe)\<close> the unit reacts to the events of
  the child process, one at a time. Its state is the array \<open>report\<close> and the calls of
  \<open>callback\<close> made so far.
\<close>

datatype event =
    ExeDone "string option"
  | StderrData string
  | StdoutData string
  | StdoutEnd

fun block_event ::
  "env \<Rightarrow> opts \<Rightarrow> string list \<times> (error + report) list \<Rightarrow> event \<Rightarrow>
   string list \<times> (error + report) list" where
  "block_event env opts (rep, calls) (ExeDone None) = (rep, calls)"
| "block_event env opts (rep, calls) (ExeDone (Some err)) =
     (rep, calls @ [reporting_reports env opts (ErrorObject err)])"
| "block_event env opts (rep, calls) (StderrData chunk) = (rep, calls)"
| "block_event env opts (rep, calls) (StdoutData chunk) = (rep @ [chunk], calls)"
| "block_event env opts (rep, calls) StdoutEnd =
     (if 0 < length rep then (rep, calls @ [reporting_reports env opts (Chunks rep)])
      else (rep, calls))"

text \<open>
  The unit for the target block \<open>range\<close>: the command it hands to \<open>proc\<close> and the calls of
  \<open>callback\<close> it makes over a sequence of events (\<open>console.log\<close> under \<open>opts.verbose\<close>
  is left out).
\<close>

definition funcs_block ::
  "env \<Rightarrow> opts \<Rightarrow> string \<Rightarrow> event list \<Rightarrow> string \<times> (error + report) list" where
  "funcs_block env opts block events =
     (tools_command opts block, snd (foldl (block_event env opts) ([], []) events))"

section \<open>Notions used to state the properties\<close>

text \<open>
  \<open>chunks k xs\<close> cuts \<open>xs\<close> into consecutive pieces of length \<open>k\<close>, the last one possibly
  shorter; it describes what the loop of \<open>tools.chunk\<close> computes.
\<close>

fun chunks :: "nat \<Rightarrow> 'a list \<Rightarrow> 'a list list" where
  "chunks k xs = (if xs = [] \<or> k = 0 then [] else take k xs # chunks k (drop k xs))"

declare chunks.simps [simp del]

text \<open>\<open>String.prototype.split\<close> on a one-character separator.\<close>

fun split_on :: "char \<Rightarrow> string \<Rightarrow> string list" where
  "split_on c [] = [[]]"
| "split_on c (x # xs) =
     (if x = c then [] # split_on c xs
      else (case split_on c xs of [] \<Rightarrow> [[x]] | w # ws \<Rightarrow> (x # w) # ws))"

text \<open>The blocks of \<open>network.range\<close>, written with \<open>chunks\<close> in place of the loop.\<close>

definition partition_blocks :: "env \<Rightarrow> opts \<Rightarrow> string \<Rightarrow> string list" where
  "partition_blocks env opts host =
     (let blocks = cidr_list env host in
      if blocksize opts = 0 then [array_join '' '' blocks]
      else
        let splitat0 = math_round_div (int (length blocks)) (blocksize opts);
            splitat = (if 256 < splitat0 then math_round_div splitat0 255 else splitat0)
        in if 1 < splitat then map (array_join '' '') (chunks (nat splitat) blocks)
           else [array_join '' '' blocks])"

text \<open>The host errors of a range list, and all the errors \<open>validation.init\<close> collects.\<close>

definition host_errors :: "string list \<Rightarrow> error list" where
  "host_errors hosts = map HostErr (filter (\<lambda>h. validation_verify h \<noteq> Inr True) hosts)"

definition collected_errors :: "opts \<Rightarrow> error list" where
  "collected_errors opts =
     (if 128 < blocksize opts then [BlockErr] else []) @
     (if validation_test (rstr ''discover'') (called opts) then []
      else if range_list opts = [] then [RangeErr]
      else host_errors (range_list opts)) @
     (if ports opts \<noteq> [] \<and> \<not> validation_test net_ports (ports opts) then [PortErr] else [])"

text \<open>
  The category of a range entry, by the order of the cases of the \<open>switch\<close> in
  \<open>network.calculate\<close>: a single host (hostname, IPv4 or IPv6 pattern), then IPv4 CIDR,
  then IPv4 range, then IPv6 CIDR.
\<close>

datatype category = SingleHost | CidrV4 | RangeV4 | CidrV6 | Invalid

definition classify :: "string \<Rightarrow> category" where
  "classify host =
     (if validation_test net_hostname host \<or>
         validation_test net_IPv4 host \<or>
         validation_test net_IPv6 host then SingleHost
      else if validation_test net_IPv4CIDR host then CidrV4
      else if validation_test net_IPv4Range host then RangeV4
      else if validation_test net_IPv6CIDR host then CidrV6
      else Invalid)"

definition emitted_unchanged :: "string \<Rightarrow> bool" where
  "emitted_unchanged host =
     (classify host = SingleHost \<or> classify host = RangeV4 \<or> classify host = CidrV6)"

text \<open>
  The classifier as the specification words it: every entry replaced, at its own place,
  by its blocks.
\<close>

definition spliced_in_place :: "env \<Rightarrow> opts \<Rightarrow> string list" where
  "spliced_in_place env opts =
     concat (map (\<lambda>host. case classify host of
                            CidrV4 \<Rightarrow> partition_blocks env opts host
                          | Invalid \<Rightarrow> []
                          | _ \<Rightarrow> [host])
                 (range_list opts))"

text \<open>
  An event that neither adds a chunk to the report nor reports an error of the process.
\<close>

definition silent :: "event \<Rightarrow> bool" where
  "silent e = (case e of StdoutData c \<Rightarrow> False | ExeDone (Some err) \<Rightarrow> False | _ \<Rightarrow> True)"

text \<open>
  A concrete environment and option object for the examples: no \<open>nmap\<close> binary can be
  found, and \<open>cidr.list\<close> enumerates two blocks.
\<close>

definition example_env :: env where
  "example_env =
     \<lparr>hasbin_sync = (\<lambda>path. False),
      fs_access = (\<lambda>path. False),
      cidr_list = (\<lambda>host.
        if host = ''10.0.0.0/29''
        then [''10.0.0.0'', ''10.0.0.1'', ''10.0.0.2'', ''10.0.0.3'',
              ''10.0.0.4'', ''10.0.0.5'', ''10.0.0.6'', ''10.0.0.7'']
        else if host = ''10.0.1.0/30''
        then [''10.0.1.0'', ''10.0.1.1'', ''10.0.1.2'', ''10.0.1.3'']
        else []),
      xml_parse = (\<lambda>xml. Inl ''no parser'')\<rparr>"

definition example_opts :: opts where
  "example_opts =
     \<lparr>nmap = ''nmap'', verbose = False, ports = ''22,80'', range_list = [''localhost''],
      timeout = 120, blocksize = 16, threshold = 4, flags = [''-T4'', ''-oX -''],
      udp = False, json = True, called = ''scan''\<rparr>"

section \<open>Lemmas\<close>

subsection \<open>Chunks\<close>

lemma chunks_Nil [simp]: "chunks k [] = []"
  by (simp add: chunks.simps)

lemma chunks_step: "xs \<noteq> [] \<Longrightarrow> 0 < k \<Longrightarrow> chunks k xs = take k xs # chunks k (drop k xs)"
  by (subst chunks.simps) simp

lemma concat_chunks: "0 < k \<Longrightarrow> concat (chunks k xs) = xs"
proof (induction k xs rule: chunks.induct)
  case (1 k xs)
  show ?case
  proof (cases "xs = []")
    case True
    then show ?thesis by simp
  next
    case False
    with 1 show ?thesis by (simp add: chunks_step)
  qed
qed

lemma chunks_nonempty: "c \<in> set (chunks k xs) \<Longrightarrow> c \<noteq> []"
proof (induction k xs rule: chunks.induct)
  case (1 k xs)
  show ?case
  proof (cases "xs = [] \<or> k = 0")
    case True
    with 1 show ?thesis by (auto simp: chunks.simps)
  next
    case False
    with 1 show ?thesis by (auto simp: chunks_step)
  qed
qed

lemma chunks_subset: "c \<in> set (chunks k xs) \<Longrightarrow> set c \<subseteq> set xs"
proof (induction k xs rule: chunks.induct)
  case (1 k xs)
  show ?case
  proof (cases "xs = [] \<or> k = 0")
    case True
    with 1 show ?thesis by (auto simp: chunks.simps)
  next
    case False
    with 1 show ?thesis
      by (auto simp: chunks_step dest: in_set_takeD in_set_dropD)
  qed
qed

lemma length_chunks: "0 < k \<Longrightarrow> length (chunks k xs) = (length xs + k - 1) div k"
proof (induction k xs rule: chunks.induct)
  case (1 k xs)
  show ?case
  proof (cases "xs = []")
    case True
    with 1 show ?thesis by simp
  next
    case False
    then obtain m where m: "length xs = Suc m" by (cases xs) auto
    have step: "length (chunks k xs) = Suc ((length xs - k + k - 1) div k)"
      using 1 False by (simp add: chunks_step)
    have up: "(m + k) div k = Suc (m div k)"
      using 1(2) div_add_self2 [of k m] by simp
    show ?thesis
    proof (cases "k \<le> m")
      case True
      then have "length xs - k + k - 1 = m" using m by simp
      then show ?thesis using step m up by simp
    next
      case small: False
      then have "length xs - k + k - 1 = k - 1" using m by simp
      moreover have "(k - 1) div k = 0" using 1(2) by simp
      moreover have "m div k = 0" using small by simp
      ultimately show ?thesis using step m up by simp
    qed
  qed
qed

lemma nth_chunks: "i < length (chunks k xs) \<Longrightarrow> chunks k xs ! i = take k (drop (i * k) xs)"
proof (induction k xs arbitrary: i rule: chunks.induct)
  case (1 k xs)
  show ?case
  proof (cases "xs = [] \<or> k = 0")
    case True
    with 1 show ?thesis by (auto simp: chunks.simps)
  next
    case False
    show ?thesis
    proof (cases i)
      case 0
      with False show ?thesis by (simp add: chunks_step)
    next
      case (Suc j)
      with 1 False show ?thesis by (simp add: chunks_step add.commute)
    qed
  qed
qed

text \<open>With a positive offset the loop of \<open>tools.chunk\<close> ends, and its value is known.\<close>

lemma chunk_loop_total:
  "0 < k \<Longrightarrow> chunk_loop obj k idx acc =
     Some (acc @ map (array_join '' '') (chunks k (drop idx obj)))"
proof (induction "length obj - idx" arbitrary: idx acc rule: less_induct)
  case less
  show ?case
  proof (cases "idx < length obj")
    case False
    then show ?thesis by (subst chunk_loop.simps) simp
  next
    case True
    then have ne: "drop idx obj \<noteq> []" by simp
    have "length obj - (idx + k) < length obj - idx"
      using True less.prems by simp
    from less.hyps [OF this less.prems]
    have "chunk_loop obj k (idx + k) (acc @ [array_join '' '' (array_slice idx (idx + k) obj)])
        = Some ((acc @ [array_join '' '' (array_slice idx (idx + k) obj)]) @
                map (array_join '' '') (chunks k (drop (idx + k) obj)))" .
    moreover have "array_slice idx (idx + k) obj = take k (drop idx obj)"
      by (simp add: array_slice_def)
    moreover have "drop (idx + k) obj = drop k (drop idx obj)"
      by (simp add: add.commute)
    ultimately show ?thesis
      using True less.prems ne by (subst chunk_loop.simps) (simp add: chunks_step)
  qed
qed

subsection \<open>Joining and splitting\<close>

lemma split_on_word: "c \<notin> set w \<Longrightarrow> split_on c w = [w]"
  by (induction w) auto

lemma split_on_append:
  "c \<notin> set w \<Longrightarrow> split_on c (w @ c # rest) = w # split_on c rest"
  by (induction w) auto

lemma split_on_join_Cons:
  "CHR '' '' \<notin> set x \<Longrightarrow> list_all (\<lambda>w. CHR '' '' \<notin> set w) xs \<Longrightarrow>
   split_on CHR '' '' (array_join '' '' (x # xs)) = x # xs"
proof (induction xs arbitrary: x)
  case Nil
  then show ?case by (simp add: split_on_word)
next
  case (Cons y ys)
  then have "split_on CHR '' '' (array_join '' '' (y # ys)) = y # ys" by simp
  with Cons.prems show ?case
    using split_on_append [of "CHR '' ''" x "array_join '' '' (y # ys)"] by simp
qed

lemma split_on_join:
  "xs \<noteq> [] \<Longrightarrow> list_all (\<lambda>w. CHR '' '' \<notin> set w) xs \<Longrightarrow>
   split_on CHR '' '' (array_join '' '' xs) = xs"
  by (cases xs) (simp_all add: split_on_join_Cons)

lemma split_join_chunks:
  assumes "list_all (\<lambda>a. CHR '' '' \<notin> set a) blocks"
  shows "map (split_on CHR '' '') (map (array_join '' '') (chunks k blocks)) = chunks k blocks"
proof -
  have "split_on CHR '' '' (array_join '' '' c) = c" if "c \<in> set (chunks k blocks)" for c
  proof -
    have "c \<noteq> []" using that by (rule chunks_nonempty)
    moreover have "list_all (\<lambda>a. CHR '' '' \<notin> set a) c"
      using chunks_subset [OF that] assms by (auto simp: list_all_iff)
    ultimately show ?thesis by (rule split_on_join)
  qed
  then show ?thesis by (simp add: map_idI)
qed

subsection \<open>\<open>network.range\<close> always returns\<close>

lemma network_range_total:
  "network_range env opts host = Some (partition_blocks env opts host)"
  by (simp add: network_range_def partition_blocks_def Let_def tools_chunk_def chunk_loop_total)

lemma partition_blocks_shape:
  "partition_blocks env opts host = [array_join '' '' (cidr_list env host)] \<or>
   (\<exists>k. 1 < k \<and>
      partition_blocks env opts host = map (array_join '' '') (chunks k (cidr_list env host)))"
proof -
  let ?b = "cidr_list env host"
  let ?s0 = "math_round_div (int (length ?b)) (blocksize opts)"
  let ?s = "if 256 < ?s0 then math_round_div ?s0 255 else ?s0"
  have eq: "partition_blocks env opts host =
      (if blocksize opts = 0 then [array_join '' '' ?b]
       else if 1 < ?s then map (array_join '' '') (chunks (nat ?s) ?b)
       else [array_join '' '' ?b])"
    by (simp add: partition_blocks_def Let_def)
  show ?thesis
  proof (cases "blocksize opts \<noteq> 0 \<and> 1 < ?s")
    case False
    with eq show ?thesis by auto
  next
    case True
    then have "1 < nat ?s" by linarith
    moreover have "partition_blocks env opts host = map (array_join '' '') (chunks (nat ?s) ?b)"
      using eq True by simp
    ultimately show ?thesis by blast
  qed
qed

text \<open>
  The number of blocks when \<open>splitat\<close> exceeds 1: the enumeration is cut into slices of
  \<open>splitat\<close> addresses, so there are \<open>\<lceil>n / splitat\<rceil>\<close> of them.
\<close>

lemma range_block_count:
  assumes "blocksize opts \<noteq> 0"
    and "splitat0 = math_round_div (int (length (cidr_list env host))) (blocksize opts)"
    and "splitat = (if 256 < splitat0 then math_round_div splitat0 255 else splitat0)"
    and "1 < splitat"
  shows "\<exists>bs. network_range env opts host = Some bs \<and>
           length bs = (length (cidr_list env host) + nat splitat - 1) div nat splitat"
proof -
  let ?s0 = "math_round_div (int (length (cidr_list env host))) (blocksize opts)"
  let ?s = "if 256 < ?s0 then math_round_div ?s0 255 else ?s0"
  have s: "splitat = ?s" by (simp only: assms(2,3))
  then have big: "1 < ?s" using assms(4) by simp
  then have "partition_blocks env opts host =
          map (array_join '' '') (chunks (nat ?s) (cidr_list env host))"
    using assms(1) by (simp add: partition_blocks_def Let_def)
  then have "partition_blocks env opts host =
          map (array_join '' '') (chunks (nat splitat) (cidr_list env host))"
    by (simp only: s)
  moreover have "0 < nat splitat" using assms(4) by simp
  ultimately show ?thesis
    by (simp add: network_range_total length_chunks)
qed

subsection \<open>\<open>validation.init\<close>\<close>

lemma validation_verify_cases:
  "validation_verify h = Inr True \<or> validation_verify h = Inl (HostErr h)"
  by (simp add: validation_verify_def)

lemma verify_entry_eq:
  "verify_entry errors h =
     errors @ (if validation_verify h \<noteq> Inr True then [HostErr h] else [])"
  using validation_verify_cases [of h] by (auto simp: verify_entry_def)

lemma foldl_verify_entry: "foldl verify_entry errors hosts = errors @ host_errors hosts"
proof (induction hosts arbitrary: errors)
  case Nil
  then show ?case by (simp add: host_errors_def)
next
  case (Cons h hosts)
  have "foldl verify_entry errors (h # hosts) = verify_entry errors h @ host_errors hosts"
    by (simp only: foldl.simps Cons.IH)
  also have "\<dots> = errors @ host_errors (h # hosts)"
    by (simp add: verify_entry_eq host_errors_def)
  finally show ?case .
qed

lemma validation_init_collected:
  "validation_init env opts =
     (if collected_errors opts = [] then Inr True else Inl (collected_errors opts))"
proof -
  have "1 \<le> length (range_list opts) \<longleftrightarrow> range_list opts \<noteq> []"
    by (cases "range_list opts") simp_all
  then show ?thesis
    by (simp add: validation_init_def collected_errors_def Let_def foldl_verify_entry
          host_errors_def)
qed

text \<open>No collaborator has a say in the validation: \<open>pathErr\<close> is never among the errors.\<close>

lemma validation_init_never_path_error:
  "validation_init env opts = Inl errors \<Longrightarrow> PathErr \<notin> set errors"
  by (auto simp: validation_init_collected collected_errors_def host_errors_def
        split: if_splits)

lemma validation_init_ignores_env: "validation_init env opts = validation_init env' opts"
  by (simp add: validation_init_collected)

text \<open>On an array of strings the two functions agree.\<close>

lemma validation_init_any_array:
  "validation_init_any env opts (RangeArray (range_list opts)) =
     Returned (validation_init env opts)"
  by (simp add: validation_init_any_def validation_init_def callback_result_def Let_def)

text \<open>
  When \<open>range\<close> is an array of strings, the block size error is delivered exactly when
  the block size exceeds 128.
\<close>

lemma blocksize_error_iff:
  "(\<exists>errors. validation_init env opts = Inl errors \<and> BlockErr \<in> set errors)
     = (128 < blocksize opts)"
  by (auto simp: validation_init_collected collected_errors_def host_errors_def
        split: if_splits)

text \<open>
  When the caller is not \<open>discover\<close> and \<open>range\<close> is \<open>null\<close> or a non-empty string,
  \<open>validation.init\<close> throws, whatever the block size is.
\<close>

lemma validation_init_any_throws:
  "\<not> validation_test (rstr ''discover'') (called opts) \<Longrightarrow>
   rng = RangeNull \<or> (\<exists>s. s \<noteq> [] \<and> rng = RangeText s) \<Longrightarrow>
   validation_init_any env opts rng = Threw TypeError"
  by (cases rng) (auto simp: validation_init_any_def Let_def Suc_le_eq)

subsection \<open>\<open>network.calculate\<close>\<close>

lemma calculate_loop_eq:
  "calculate_loop env opts hosts (results, tresults) =
     Some (results @ filter emitted_unchanged hosts,
           tresults @ map (partition_blocks env opts) (filter (\<lambda>h. classify h = CidrV4) hosts))"
proof (induction hosts arbitrary: results tresults)
  case Nil
  then show ?case by simp
next
  case (Cons h hosts)
  show ?case
    by (simp add: Cons.IH network_range_total classify_def emitted_unchanged_def)
qed

text \<open>Only the blocks of the first IPv4 CIDR entry reach the result, after all other entries.\<close>

lemma network_calculate_eq:
  "network_calculate env opts =
     Some (filter emitted_unchanged (range_list opts) @
           (case filter (\<lambda>h. classify h = CidrV4) (range_list opts) of
              [] \<Rightarrow> []
            | h # others \<Rightarrow> partition_blocks env opts h))"
  by (simp add: network_calculate_def calculate_loop_eq tools_merge_def split: list.split)

lemma verify_classify: "(validation_verify h = Inr True) = (classify h \<noteq> Invalid)"
  by (auto simp: validation_verify_def classify_def)

lemma emitted_valid: "emitted_unchanged h \<Longrightarrow> validation_verify h = Inr True"
  by (auto simp: verify_classify emitted_unchanged_def)

lemma cidr_valid: "classify h = CidrV4 \<Longrightarrow> validation_verify h = Inr True"
  by (simp add: verify_classify)

lemma calculate_drops_invalid:
  "network_calculate env
     (opts\<lparr>range_list := filter (\<lambda>h. validation_verify h = Inr True) (range_list opts)\<rparr>)
     = network_calculate env opts"
proof -
  have p: "partition_blocks env (opts\<lparr>range_list := r\<rparr>) = partition_blocks env opts" for r
    by (rule ext) (simp add: partition_blocks_def Let_def)
  have e: "(validation_verify h = Inr True \<and> emitted_unchanged h) = emitted_unchanged h" for h
    using emitted_valid [of h] by blast
  have c: "(validation_verify h = Inr True \<and> classify h = CidrV4) = (classify h = CidrV4)" for h
    using cidr_valid [of h] by blast
  show ?thesis
    by (simp add: network_calculate_eq p e c cong: list.case_cong)
qed

subsection \<open>\<open>tools.command\<close>\<close>

lemma command_slots:
  "tools_command opts block =
     nmap opts @ (if udp opts then '' -sU'' else '' '') @ '' '' @
     ''--host-timeout='' @ show_int (timeout opts) @ ''s '' @
     array_join '' '' (flags opts) @
     (if validation_test net_IPv6 block then '' -6 '' else '' '') @
     (if ports opts \<noteq> [] then ''-p'' @ ports opts @ '' '' else []) @
     block"
  by (simp add: tools_command_def Let_def)

lemma command_prefix_udp:
  "prefix (nmap opts @ '' -sU'') (tools_command opts block) = udp opts"
  by (simp add: tools_command_def Let_def)

lemma command_has_timeout:
  "sublist (''--host-timeout='' @ show_int (timeout opts) @ ''s'') (tools_command opts block)"
  unfolding command_slots sublist_def
  by (rule exI [of _ "nmap opts @ (if udp opts then '' -sU'' else '' '') @ '' ''"]) auto

lemma command_suffix:
  "suffix ((if validation_test net_IPv6 block then '' -6 '' else '' '') @
           (if ports opts \<noteq> [] then ''-p'' @ ports opts @ '' '' else []) @ block)
          (tools_command opts block)"
  unfolding command_slots suffix_def
  by (rule exI [of _ "nmap opts @ (if udp opts then '' -sU'' else '' '') @ '' '' @
        ''--host-timeout='' @ show_int (timeout opts) @ ''s '' @
        array_join '' '' (flags opts)"]) simp

subsection \<open>Examples of the port pattern and of the classifier\<close>

text \<open>
  The forms named in \<open>validation.portErr\<close> match, except that port 0 does not; a leading
  separator and a chain of dashes match too.
\<close>

lemma ports_examples:
  "map (validation_test net_ports)
     [''512'', ''1-65535'', ''10-30,80,443,3306-10000'', ''65535'',
      ''0'', ''0-65535'', ''65536'', ''080'', ''80,'', ''80,,443'', ''80 443'',
      '',80'', ''-80'', ''1-2-3'']
   = [True, True, True, True,
      False, False, False, False, False, False, False,
      True, True, True]"
  by code_simp

text \<open>
  The blocks of an IPv4 CIDR entry come after the entries that are emitted unchanged, not
  at the entry's own place.
\<close>

lemma calculate_cidr_blocks_last:
  "network_calculate example_env
     (example_opts\<lparr>range_list := [''10.0.1.0/30'', ''example.org'']\<rparr>) =
     Some [''example.org'', ''10.0.1.0 10.0.1.1 10.0.1.2 10.0.1.3''] \<and>
   spliced_in_place example_env
     (example_opts\<lparr>range_list := [''10.0.1.0/30'', ''example.org'']\<rparr>) =
     [''10.0.1.0 10.0.1.1 10.0.1.2 10.0.1.3'', ''example.org'']"
  by code_simp

subsection \<open>The scan unit\<close>

lemma silent_events_fold:
  "list_all silent events \<Longrightarrow> foldl (block_event env opts) ([], []) events = ([], [])"
proof (induction events)
  case Nil
  then show ?case by simp
next
  case (Cons e events)
  then have "block_event env opts ([], []) e = ([], [])"
    by (cases e) (auto simp: silent_def split: option.splits)
  with Cons show ?case by simp
qed

text \<open>A unit that sees no chunk on \<open>stdout\<close> and no error of the process never calls back.\<close>

lemma silent_unit_never_settles:
  "list_all silent events \<Longrightarrow> snd (funcs_block env opts block events) = []"
  by (simp add: funcs_block_def silent_events_fold)

text \<open>With an error of the process the unit calls back once, with that error.\<close>

lemma failed_unit_settles:
  "snd (funcs_block env opts block [StdoutEnd, ExeDone (Some err)]) = [Inl (ExecErr err)]"
  by (simp add: funcs_block_def reporting_reports_def)

text \<open>Without \<open>opts.json\<close> the report is the text of the chunks, unchanged.\<close>

lemma raw_report_round_trip:
  "\<not> json opts \<Longrightarrow> reporting_reports env opts (Chunks cs) = Inr (Xml (concat cs))"
  by (simp add: reporting_reports_def)

section \<open>The claims\<close>

text \<open>
  C1. The claim: partitioning a CIDR with \<open>n\<close> addresses and block size \<open>b\<close> gives
  \<open>round(n / b)\<close> blocks (rescaled above 256). The code hands that number to
  \<open>tools.chunk\<close> as the length of a slice, while \<open>opts.blocksize\<close> is documented as the
  number of hosts per block. With 8 addresses and block size 2 the number is 4, and
  \<open>network.range\<close> returns 2 blocks of 4 addresses, not 4 blocks of 2.
\<close>

theorem range_block_count_example:
  "length (cidr_list example_env ''10.0.0.0/29'') = 8 \<and>
   math_round_div 8 (blocksize (example_opts\<lparr>blocksize := 2\<rparr>)) = 4 \<and>
   network_range example_env (example_opts\<lparr>blocksize := 2\<rparr>) ''10.0.0.0/29'' =
     Some [''10.0.0.0 10.0.0.1 10.0.0.2 10.0.0.3'', ''10.0.0.4 10.0.0.5 10.0.0.6 10.0.0.7'']"
  by code_simp

text \<open>
  C2. For every CIDR whose enumeration is not empty and holds addresses without a space,
  and for every block size, \<open>network.range\<close> returns, and splitting its blocks on single
  spaces and concatenating them in order gives back the enumeration: nothing is lost,
  repeated or reordered. Block \<open>i\<close> holds the contiguous addresses from index \<open>i * k\<close>
  on, at most \<open>k\<close> of them, for one slice length \<open>k\<close>.
\<close>

theorem range_keeps_enumeration:
  assumes ne: "cidr_list env host \<noteq> []"
    and sp: "list_all (\<lambda>a. CHR '' '' \<notin> set a) (cidr_list env host)"
  shows "\<exists>bs k. network_range env opts host = Some bs \<and>
           concat (map (split_on CHR '' '') bs) = cidr_list env host \<and>
           0 < k \<and>
           (\<forall>i < length bs.
              split_on CHR '' '' (bs ! i) = take k (drop (i * k) (cidr_list env host)))"
proof -
  define blocks where "blocks = cidr_list env host"
  have whole: "split_on CHR '' '' (array_join '' '' blocks) = blocks"
    using ne sp unfolding blocks_def by (rule split_on_join)
  from partition_blocks_shape [of env opts host]
  consider (one) "partition_blocks env opts host = [array_join '' '' blocks]"
    | (many) k where "1 < k"
        "partition_blocks env opts host = map (array_join '' '') (chunks k blocks)"
    unfolding blocks_def by blast
  then show ?thesis
  proof cases
    case one
    then have "network_range env opts host = Some [array_join '' '' blocks]"
      by (simp add: network_range_total)
    moreover have "0 < length blocks" using ne by (simp add: blocks_def)
    ultimately show ?thesis
      using whole unfolding blocks_def [symmetric]
      by (intro exI [of _ "[array_join '' '' blocks]"] exI [of _ "length blocks"]) simp
  next
    case many
    have k: "0 < k" using many(1) by simp
    have r: "network_range env opts host = Some (map (array_join '' '') (chunks k blocks))"
      using many(2) by (simp add: network_range_total)
    have m: "map (split_on CHR '' '') (map (array_join '' '') (chunks k blocks)) = chunks k blocks"
      using sp unfolding blocks_def by (rule split_join_chunks)
    have c: "concat (map (split_on CHR '' '') (map (array_join '' '') (chunks k blocks))) = blocks"
      using m k by (simp only: concat_chunks)
    have n: "split_on CHR '' '' (map (array_join '' '') (chunks k blocks) ! i)
               = take k (drop (i * k) blocks)"
      if "i < length (map (array_join '' '') (chunks k blocks))" for i
    proof -
      have i: "i < length (chunks k blocks)" using that by simp
      have "map (split_on CHR '' '') (map (array_join '' '') (chunks k blocks)) ! i
              = chunks k blocks ! i"
        by (simp only: m)
      then have "split_on CHR '' '' (map (array_join '' '') (chunks k blocks) ! i)
              = chunks k blocks ! i"
        using i by simp
      then show ?thesis using nth_chunks [OF i] by simp
    qed
    show ?thesis
      using r c k n unfolding blocks_def [symmetric]
      by (intro exI [of _ "map (array_join '' '') (chunks k blocks)"] exI [of _ k]) blast
  qed
qed

theorem range_keeps_enumeration_witness:
  "cidr_list example_env ''10.0.0.0/29'' \<noteq> [] \<and>
   list_all (\<lambda>a. CHR '' '' \<notin> set a) (cidr_list example_env ''10.0.0.0/29'') \<and>
   (\<exists>bs k. network_range example_env (example_opts\<lparr>blocksize := 3\<rparr>) ''10.0.0.0/29'' = Some bs \<and>
      concat (map (split_on CHR '' '') bs) = cidr_list example_env ''10.0.0.0/29'' \<and>
      0 < k \<and>
      (\<forall>i < length bs.
         split_on CHR '' '' (bs ! i) =
           take k (drop (i * k) (cidr_list example_env ''10.0.0.0/29''))))"
proof -
  have a: "cidr_list example_env ''10.0.0.0/29'' \<noteq> []"
    by (simp add: example_env_def)
  have b: "list_all (\<lambda>a. CHR '' '' \<notin> set a) (cidr_list example_env ''10.0.0.0/29'')"
    by (simp add: example_env_def)
  show ?thesis
    using a b range_keeps_enumeration [OF a b, of "example_opts\<lparr>blocksize := 3\<rparr>"] by blast
qed

text \<open>
  C3. The claim: every entry classified as IPv4 CIDR, not just the first one, is
  partitioned and its blocks are spliced into the result. The code partitions every such
  entry and collects the blocks in \<open>tresults\<close>, but merges only \<open>tresults[0]\<close> into the
  result. The list \<open>[10.0.1.0/30, 10.0.0.0/29]\<close> passes validation, both entries are
  classified as IPv4 CIDR, and the result holds the block of the first entry alone; the
  block of the second entry, which the classifier of the specification emits, is lost.
\<close>

theorem calculate_second_cidr_lost:
  "validation_init example_env
     (example_opts\<lparr>range_list := [''10.0.1.0/30'', ''10.0.0.0/29'']\<rparr>) = Inr True \<and>
   map classify [''10.0.1.0/30'', ''10.0.0.0/29''] = [CidrV4, CidrV4] \<and>
   network_calculate example_env
     (example_opts\<lparr>range_list := [''10.0.1.0/30'', ''10.0.0.0/29'']\<rparr>) =
     Some [''10.0.1.0 10.0.1.1 10.0.1.2 10.0.1.3''] \<and>
   spliced_in_place example_env
     (example_opts\<lparr>range_list := [''10.0.1.0/30'', ''10.0.0.0/29'']\<rparr>) =
     [''10.0.1.0 10.0.1.1 10.0.1.2 10.0.1.3'',
      ''10.0.0.0 10.0.0.1 10.0.0.2 10.0.0.3 10.0.0.4 10.0.0.5 10.0.0.6 10.0.0.7'']"
  by code_simp

text \<open>
  C4. The claim: a range list with at least one valid entry among invalid ones passes
  validation. In the code the list \<open>[localhost, !]\<close>, whose first entry is valid, fails
  with the host error of its second entry.
\<close>

theorem validation_mixed_range_counterexample:
  "\<not> validation_test (rstr ''discover'') (called example_opts) \<and>
   validation_verify ''localhost'' = Inr True \<and>
   validation_verify ''!'' = Inl (HostErr ''!'') \<and>
   validation_init example_env (example_opts\<lparr>range_list := [''localhost'', ''!'']\<rparr>) =
     Inl [HostErr ''!'']"
  by code_simp

text \<open>
  C4, amended. When the caller is not \<open>discover\<close>, validation delivers exactly these
  errors, in this order: the block size error if the block size exceeds 128; the range
  error if the range list is empty, else one host error for each entry that matches
  none of the six patterns, in the order of the list (every entry is checked, none stops
  the others); the port error if a non-empty port specification does not match. It
  succeeds only when there is none: a list with an invalid entry fails, also when its
  other entries are valid. The classifier alone drops invalid entries: its result is the
  one for the list without them.
\<close>

theorem validation_rejects_invalid_entries:
  assumes "\<not> validation_test (rstr ''discover'') (called opts)"
  shows "validation_init env opts =
           (let errors =
              (if 128 < blocksize opts then [BlockErr] else []) @
              (if range_list opts = [] then [RangeErr]
               else map HostErr
                      (filter (\<lambda>h. validation_verify h \<noteq> Inr True) (range_list opts))) @
              (if ports opts \<noteq> [] \<and> \<not> validation_test net_ports (ports opts)
               then [PortErr] else [])
            in if errors = [] then Inr True else Inl errors) \<and>
         (list_ex (\<lambda>h. validation_verify h \<noteq> Inr True) (range_list opts) \<longrightarrow>
            validation_init env opts \<noteq> Inr True) \<and>
         network_calculate env opts =
           network_calculate env
             (opts\<lparr>range_list :=
                filter (\<lambda>h. validation_verify h = Inr True) (range_list opts)\<rparr>)"
proof -
  have a: "validation_init env opts =
           (let errors =
              (if 128 < blocksize opts then [BlockErr] else []) @
              (if range_list opts = [] then [RangeErr]
               else map HostErr
                      (filter (\<lambda>h. validation_verify h \<noteq> Inr True) (range_list opts))) @
              (if ports opts \<noteq> [] \<and> \<not> validation_test net_ports (ports opts)
               then [PortErr] else [])
            in if errors = [] then Inr True else Inl errors)"
    using assms
    by (simp add: validation_init_collected collected_errors_def host_errors_def Let_def)
  have b: "validation_init env opts \<noteq> Inr True"
    if "list_ex (\<lambda>h. validation_verify h \<noteq> Inr True) (range_list opts)"
  proof -
    from that have "filter (\<lambda>h. validation_verify h \<noteq> Inr True) (range_list opts) \<noteq> []"
      by (auto simp: list_ex_iff filter_empty_conv)
    moreover from that have "range_list opts \<noteq> []" by auto
    ultimately show ?thesis by (simp add: a Let_def)
  qed
  from a b calculate_drops_invalid [of env opts] show ?thesis by simp
qed

theorem validation_rejects_invalid_entries_witness:
  "\<not> validation_test (rstr ''discover'')
       (called (example_opts\<lparr>range_list := [''localhost'', ''!'']\<rparr>)) \<and>
   validation_init example_env (example_opts\<lparr>range_list := [''localhost'', ''!'']\<rparr>)
     \<noteq> Inr True \<and>
   network_calculate example_env (example_opts\<lparr>range_list := [''localhost'', ''!'']\<rparr>) =
     network_calculate example_env (example_opts\<lparr>range_list := [''localhost'']\<rparr>)"
proof -
  let ?o = "example_opts\<lparr>range_list := [''localhost'', ''!'']\<rparr>"
  have d: "\<not> validation_test (rstr ''discover'') (called ?o)"
    by code_simp
  have v1: "validation_verify ''localhost'' = Inr True"
    by code_simp
  have v2: "validation_verify ''!'' \<noteq> Inr True"
    by code_simp
  show ?thesis
    using d validation_rejects_invalid_entries [OF d, of example_env] v1 v2 by simp
qed

text \<open>
  C5. The command line is the executable, then \<open>-sU\<close> exactly when UDP is asked for, the
  host timeout flag in every case, the user flags, \<open>-6\<close> exactly when the block matches
  the IPv6 pattern, \<open>-p\<close> with the ports right before the block exactly when the port
  specification is not empty, and the block last.
\<close>

theorem command_line_shape:
  "tools_command opts block =
     nmap opts @ (if udp opts then '' -sU'' else '' '') @ '' '' @
     ''--host-timeout='' @ show_int (timeout opts) @ ''s '' @
     array_join '' '' (flags opts) @
     (if validation_test net_IPv6 block then '' -6 '' else '' '') @
     (if ports opts \<noteq> [] then ''-p'' @ ports opts @ '' '' else []) @
     block \<and>
   prefix (nmap opts @ '' -sU'') (tools_command opts block) = udp opts \<and>
   sublist (''--host-timeout='' @ show_int (timeout opts) @ ''s'') (tools_command opts block) \<and>
   suffix ((if validation_test net_IPv6 block then '' -6 '' else '' '') @
           (if ports opts \<noteq> [] then ''-p'' @ ports opts @ '' '' else []) @ block)
          (tools_command opts block)"
  by (intro conjI command_slots command_prefix_udp command_has_timeout command_suffix)

theorem command_line_shape_witness:
  "tools_command example_opts ''10.0.0.1 10.0.0.2'' =
     ''nmap  --host-timeout=120s -T4 -oX - -p22,80 10.0.0.1 10.0.0.2''"
proof -
  have a: "\<not> validation_test net_IPv6 ''10.0.0.1 10.0.0.2''"
    by code_simp
  have b: "show_int 120 = ''120''"
    by code_simp
  show ?thesis
    using command_line_shape [of example_opts "''10.0.0.1 10.0.0.2''"] a b
    by (simp add: example_opts_def)
qed

text \<open>
  C7. The claim: with a block size above 128 validation fails with the block size error,
  whatever the other options are. The code pushes \<open>blockErr\<close> first, and for a \<open>range\<close>
  that is not a list it pushes \<open>rangeErr\<close> too; but then it reads \<open>opts.range.length\<close> and
  calls \<open>opts.range.forEach\<close> all the same. With the string \<open>localhost\<close> as \<open>range\<close> and
  block size 200 the call throws a \<open>TypeError\<close> before \<open>cb\<close> is called: no error is
  delivered.
\<close>

theorem blocksize_error_not_delivered:
  "128 < blocksize (example_opts\<lparr>blocksize := 200\<rparr>) \<and>
   \<not> validation_test (rstr ''discover'') (called (example_opts\<lparr>blocksize := 200\<rparr>)) \<and>
   validation_init_any example_env (example_opts\<lparr>blocksize := 200\<rparr>)
     (RangeText ''localhost'') = Threw TypeError"
  by code_simp

text \<open>
  C8. The claim: a port specification with a leading separator fails validation. The
  pattern lets each port, the first one too, start with \<open>-\<close> or \<open>,\<close>: \<open>,80\<close> matches,
  and validation succeeds with it.
\<close>

theorem ports_leading_separator_accepted:
  "validation_test net_ports '',80'' \<and>
   validation_init example_env (example_opts\<lparr>ports := '',80''\<rparr>) = Inr True"
  by code_simp

text \<open>
  C9. The claim: a unit whose output ends with no chunk captured still calls back, with
  an error. In the code the handler of \<open>end\<close> calls back only for a non-empty report;
  when the process also ends without an error, the unit never calls back.
\<close>

theorem empty_output_never_settles:
  "snd (funcs_block env opts block [StderrData warning, StdoutEnd, ExeDone None]) = []"
  by (simp add: funcs_block_def)

text \<open>
  C10. The claim: validation fails with the path error when the executable is neither
  on the search path nor an executable file. In the code the function that would
  report it is passed to \<open>validation.exists\<close>, which never calls it: with no binary
  anywhere, validation of otherwise valid options succeeds.
\<close>

theorem missing_binary_not_reported:
  "\<not> hasbin_sync example_env (nmap example_opts) \<and>
   \<not> fs_access example_env (nmap example_opts) \<and>
   validation_init example_env example_opts = Inr True"
  by code_simp

end
